theory Spec2Isabelle
  imports Complex_Main
begin

section \<open>MedAI Connect: the triage engine and the session cache of src/App.jsx\<close>

text \<open>
  The development embeds the decision logic of the single React component of the
  repository: \<^verbatim>\<open>triageEngine\<close> (lines 80-149), \<^verbatim>\<open>handleTriage\<close> (150-160),
  \<^verbatim>\<open>deleteSession\<close> (181-183), the Clear Sessions handler (254), the lazy
  initialiser of the \<^verbatim>\<open>sessions\<close> state (28-35) and the effect that writes the
  sessions to localStorage (39-41).

  Modelling choices.
  \<^item> A JavaScript string is a \<open>string\<close>; \<^verbatim>\<open>toLowerCase\<close> maps the letters A-Z
    to a-z and leaves every other character alone.
  \<^item> A JavaScript number is a rational (\<open>rat\<close>); a field that holds \<^verbatim>\<open>null\<close> or
    \<^verbatim>\<open>undefined\<close> is \<open>None\<close>. Every constant the engine compares a reading with
    (92, 38.0, 50, 120) is an integer, so the comparison of a finite double with it
    is the comparison of the rationals. NaN and the infinities are not modelled.
  \<^item> The confidence heuristic is computed in exact rationals. The doubles the
    source computes (0.6, 0.75, 0.8, 0.9) differ from them by less than 1e-15,
    and \<^verbatim>\<open>toFixed(0)\<close> of their hundredfold prints the same digits.
  \<^item> \<^verbatim>\<open>new Date().toISOString()\<close> and \<^verbatim>\<open>Date.now()\<close> are read from the
    environment: they are parameters of the functions that use them.
\<close>

subsection \<open>Strings and regular expressions of literal alternatives\<close>

definition lower_char :: "char \<Rightarrow> char" where
  "lower_char c =
     (if 65 \<le> (of_char c :: nat) \<and> (of_char c :: nat) \<le> 90
      then char_of ((of_char c :: nat) + 32) else c)"

definition toLowerCase :: "string \<Rightarrow> string" where
  "toLowerCase s = map lower_char s"

fun starts_with :: "string \<Rightarrow> string \<Rightarrow> bool" where
  "starts_with [] s = True"
| "starts_with (p # ps) [] = False"
| "starts_with (p # ps) (c # cs) = (p = c \<and> starts_with ps cs)"

text \<open>\<open>contains p s\<close>: the literal \<open>p\<close> occurs somewhere in \<open>s\<close>.\<close>

fun contains :: "string \<Rightarrow> string \<Rightarrow> bool" where
  "contains p [] = starts_with p []"
| "contains p (c # cs) = (starts_with p (c # cs) \<or> contains p cs)"

text \<open>\<^verbatim>\<open>/p1|p2|...|pn/.test(s)\<close> for literals \<open>p1 ... pn\<close>.\<close>

definition regex_test :: "string list \<Rightarrow> string \<Rightarrow> bool" where
  "regex_test alts s = list_ex (\<lambda>p. contains p s) alts"

text \<open>\<^verbatim>\<open>/p1|p2|...|pn/i.test(s)\<close>: the same, ignoring case.\<close>

definition regex_test_i :: "string list \<Rightarrow> string \<Rightarrow> bool" where
  "regex_test_i alts s = list_ex (\<lambda>p. contains (toLowerCase p) (toLowerCase s)) alts"

definition is_alnum :: "char \<Rightarrow> bool" where
  "is_alnum c =
     (let n = (of_char c :: nat)
      in (97 \<le> n \<and> n \<le> 122) \<or> (65 \<le> n \<and> n \<le> 90) \<or> (48 \<le> n \<and> n \<le> 57))"

text \<open>
  \<^verbatim>\<open>s.split(/[^a-zA-Z0-9]+/)\<close>: the pieces between the maximal runs of characters
  that are not alphanumeric. \<open>cur\<close> is the piece being read, reversed; \<open>insep\<close>
  says that the previous character belonged to a separator.
\<close>

fun split_from :: "string \<Rightarrow> bool \<Rightarrow> string \<Rightarrow> string list" where
  "split_from cur insep [] = [rev cur]"
| "split_from cur insep (c # cs) =
     (if is_alnum c then split_from (c # cur) False cs
      else if insep then split_from cur True cs
      else rev cur # split_from [] True cs)"

definition split_nonalnum :: "string \<Rightarrow> string list" where
  "split_nonalnum s = split_from [] False s"

text \<open>\<^verbatim>\<open>parts.join(" ")\<close>.\<close>

fun join_space :: "string list \<Rightarrow> string" where
  "join_space [] = []"
| "join_space [x] = x"
| "join_space (x # y # zs) = x @ '' '' @ join_space (y # zs)"

subsection \<open>Printing numbers\<close>

definition digit_char :: "nat \<Rightarrow> char" where
  "digit_char d = char_of (48 + d)"

text \<open>The decimal digits of a natural number, as JavaScript prints an integer.\<close>

fun digits :: "nat \<Rightarrow> string" where
  "digits n = (if n < 10 then [digit_char n] else digits (n div 10) @ [digit_char (n mod 10)])"

declare digits.simps [simp del]

text \<open>
  \<^verbatim>\<open>x.toFixed(0)\<close>: the integer nearest to \<open>x\<close>, the larger one in absolute value
  when two are equally near, with the sign of \<open>x\<close> in front.
\<close>

definition toFixed0 :: "rat \<Rightarrow> string" where
  "toFixed0 x =
     (if x < 0 then ''-'' @ digits (nat \<lfloor>- x + 1 / 2\<rfloor>) else digits (nat \<lfloor>x + 1 / 2\<rfloor>))"

subsection \<open>Data of the triage engine\<close>

record device =
  spo2 :: "rat option"
  temp :: "rat option"
  hr :: "rat option"

record flags =
  fever :: bool
  cough :: bool
  breath :: bool
  chest :: bool
  vomit :: bool
  dizzy :: bool
  bleed :: bool
  rash :: bool

record triage_result =
  urgency :: string
  explanation :: string
  confidence :: string
  possible :: "string list"
  timestamp :: string

subsection \<open>triageEngine, lines 80-149\<close>

text \<open>
  Line 82: \<^verbatim>\<open>(text || "").toLowerCase()\<close>; \<open>None\<close> is a text that is \<^verbatim>\<open>null\<close> or
  \<^verbatim>\<open>undefined\<close>.
\<close>

definition normalize_text :: "string option \<Rightarrow> string" where
  "normalize_text txt = toLowerCase (case txt of None \<Rightarrow> [] | Some s \<Rightarrow> s)"

text \<open>Line 83: the words of the lower-cased text, empty pieces dropped.\<close>

definition words_of :: "string \<Rightarrow> string list" where
  "words_of t = filter (\<lambda>w. w \<noteq> []) (split_nonalnum t)"

definition fever_patterns :: "string list" where
  "fever_patterns = [''fever'', ''temperature'', ''hot'', ''chills'']"

definition cough_patterns :: "string list" where
  "cough_patterns = [''cough'', ''coughing'']"

definition breath_patterns :: "string list" where
  "breath_patterns = [''breath'', ''breathing'', ''shortness'', ''dyspnea'', ''breathless'']"

definition chest_patterns :: "string list" where
  "chest_patterns = [''chest'', ''pressure'', ''pain in chest'']"

definition vomit_patterns :: "string list" where
  "vomit_patterns = [''vomit'', ''nausea'', ''throw up'']"

definition dizzy_patterns :: "string list" where
  "dizzy_patterns = [''dizzy'', ''faint'', ''lightheaded'']"

definition bleed_patterns :: "string list" where
  "bleed_patterns = [''bleed'', ''blood'']"

definition rash_patterns :: "string list" where
  "rash_patterns = [''rash'', ''itch'', ''red spot'', ''spots'']"

text \<open>Lines 85-94.\<close>

definition flags_of :: "string \<Rightarrow> flags" where
  "flags_of t =
     \<lparr> fever = regex_test fever_patterns t,
       cough = regex_test cough_patterns t,
       breath = regex_test breath_patterns t,
       chest = regex_test chest_patterns t,
       vomit = regex_test vomit_patterns t,
       dizzy = regex_test dizzy_patterns t,
       bleed = regex_test bleed_patterns t,
       rash = regex_test rash_patterns t \<rparr>"

text \<open>
  \<^verbatim>\<open>v && P(v)\<close> for a reading \<open>v\<close>: JavaScript evaluates \<open>P\<close> only when \<open>v\<close> is
  truthy, and the falsy readings are \<^verbatim>\<open>null\<close>, \<^verbatim>\<open>undefined\<close> and the number 0.
\<close>

definition truthy_and :: "rat option \<Rightarrow> (rat \<Rightarrow> bool) \<Rightarrow> bool" where
  "truthy_and v P = (case v of None \<Rightarrow> False | Some x \<Rightarrow> x \<noteq> 0 \<and> P x)"

text \<open>Line 96: \<^verbatim>\<open>device || {}\<close>; every field of the empty object is undefined.\<close>

definition no_device :: device where
  "no_device = \<lparr> spo2 = None, temp = None, hr = None \<rparr>"

definition device_or_empty :: "device option \<Rightarrow> device" where
  "device_or_empty d = (case d of None \<Rightarrow> no_device | Some dev \<Rightarrow> dev)"

definition low_oxygen_warning :: string where
  "low_oxygen_warning = ''Low oxygen saturation (SpO2)''"

definition fever_warning :: string where
  "fever_warning = ''Fever: elevated body temperature''"

definition heart_rate_warning :: string where
  "heart_rate_warning = ''Abnormal heart rate''"

text \<open>Lines 97-100: the three pushes, in this order.\<close>

definition devWarnings_of :: "device \<Rightarrow> string list" where
  "devWarnings_of dev =
     (if truthy_and (spo2 dev) (\<lambda>x. x < 92) then [low_oxygen_warning] else [])
     @ (if truthy_and (temp dev) (\<lambda>x. x \<ge> 38.0) then [fever_warning] else [])
     @ (if truthy_and (hr dev) (\<lambda>x. x < 50 \<or> x > 120) then [heart_rate_warning] else [])"

definition reason_serious :: string where
  "reason_serious = ''Symptoms related to breathing or chest pain can be serious.''"

definition reason_fever_cough :: string where
  "reason_fever_cough = ''Fever with cough may need medical review within 24-48 hours.''"

definition reason_fever_alone :: string where
  "reason_fever_alone = ''Fever alone often needs home care and monitoring.''"

definition reason_fever_rash :: string where
  "reason_fever_rash = ''Fever with rash can be a sign of infection; consult if it worsens.''"

definition reason_dehydration :: string where
  "reason_dehydration =
     ''Persistent vomiting or dizziness can cause dehydration and needs attention.''"

definition reason_mild :: string where
  "reason_mild = ''Symptoms seem mild from the description.''"

text \<open>The condition of line 104.\<close>

definition serious_condition :: "flags \<Rightarrow> string list \<Rightarrow> bool" where
  "serious_condition fl devWarnings =
     (chest fl \<or> breath fl
      \<or> list_ex (regex_test_i [''oxygen'', ''heart'', ''breath'']) devWarnings)"

text \<open>Lines 102-121: the urgency and the reason parts after the if-else chain.\<close>

definition basic_triage :: "flags \<Rightarrow> string list \<Rightarrow> string \<times> string list" where
  "basic_triage fl devWarnings =
     (if serious_condition fl devWarnings then (''high'', [reason_serious])
      else if fever fl \<and> cough fl then (''moderate'', [reason_fever_cough])
      else if fever fl then (''low'', [reason_fever_alone])
      else if rash fl \<and> fever fl then (''moderate'', [reason_fever_rash])
      else if vomit fl \<or> dizzy fl then (''moderate'', [reason_dehydration])
      else (''low'', [reason_mild]))"

text \<open>Lines 123-126: the device warnings enter the reason and the urgency.\<close>

definition incorporate_device :: "string list \<Rightarrow> string \<times> string list \<Rightarrow> string \<times> string list" where
  "incorporate_device devWarnings ur =
     (if length devWarnings > 0
      then (if list_ex (regex_test_i [''Low oxygen'', ''Abnormal heart rate'']) devWarnings
            then ''high'' else fst ur,
            snd ur @ map (\<lambda>w. ''Device reading: '' @ w @ ''.'') devWarnings)
      else ur)"

text \<open>Lines 128-133.\<close>

definition confidence_of :: "nat \<Rightarrow> string list \<Rightarrow> string \<Rightarrow> rat" where
  "confidence_of keywordCount devWarnings urg =
     (let c0 = 0.6;
          c1 = (if keywordCount > 6 then c0 + 0.15 else c0);
          c2 = (if length devWarnings > 0 then c1 + 0.15 else c1);
          c3 = (if urg = ''high'' then max c2 0.8 else c2)
      in min 0.95 c3)"

definition common_cold :: string where
  "common_cold = ''Common cold or minor viral illness''"

text \<open>Lines 135-140.\<close>

definition possible_of :: "flags \<Rightarrow> string list" where
  "possible_of fl =
     (let p = (if fever fl \<and> cough fl then [''Flu or respiratory infection''] else [])
              @ (if cough fl \<and> breath fl
                 then [''Lower respiratory tract issue (e.g., pneumonia)''] else [])
              @ (if rash fl then [''Allergic reaction or skin infection''] else [])
              @ (if vomit fl then [''Gastroenteritis or food-related illness''] else [])
      in if length p = 0 then p @ [common_cold] else p)"

text \<open>
  The whole function. \<open>now\<close> is the ISO time the call reads from the clock; \<open>txt\<close> and
  \<open>dev\<close> are \<open>None\<close> when the caller passes \<^verbatim>\<open>null\<close> or \<^verbatim>\<open>undefined\<close>.
\<close>

definition triageEngine :: "string \<Rightarrow> string option \<Rightarrow> device option \<Rightarrow> triage_result" where
  "triageEngine now txt dev =
     (let t = normalize_text txt;
          ws = words_of t;
          fl = flags_of t;
          devWarnings = devWarnings_of (device_or_empty dev);
          ur = incorporate_device devWarnings (basic_triage fl devWarnings);
          conf = confidence_of (length ws) devWarnings (fst ur)
      in \<lparr> urgency = fst ur,
           explanation = join_space (snd ur),
           confidence = toFixed0 (conf * 100) @ ''%'',
           possible = possible_of fl,
           timestamp = now \<rparr>)"

subsection \<open>The specification's reading of the urgency branches and of the confidence\<close>

text \<open>
  The branches (a)-(f) of the specification, in the listed order, each with its
  condition, its urgency and its reason; \<open>first_true\<close> stops at the first branch
  whose condition holds. These two definitions follow the specification's words and
  are compared with \<open>basic_triage\<close> below.
\<close>

datatype branch = BrA | BrB | BrC | BrD | BrE | BrF

definition spec_branches :: "flags \<Rightarrow> string list \<Rightarrow> (branch \<times> bool \<times> string \<times> string) list" where
  "spec_branches fl devWarnings =
     [ (BrA, chest fl \<or> breath fl
             \<or> list_ex (regex_test_i [''oxygen'', ''heart'', ''breath'']) devWarnings,
        ''high'', reason_serious),
       (BrB, fever fl \<and> cough fl, ''moderate'', reason_fever_cough),
       (BrC, fever fl, ''low'', reason_fever_alone),
       (BrD, rash fl \<and> fever fl, ''moderate'', reason_fever_rash),
       (BrE, vomit fl \<or> dizzy fl, ''moderate'', reason_dehydration),
       (BrF, True, ''low'', reason_mild) ]"

fun first_true :: "(branch \<times> bool \<times> string \<times> string) list
    \<Rightarrow> (branch \<times> bool \<times> string \<times> string) option" where
  "first_true [] = None"
| "first_true (b # bs) = (if fst (snd b) then Some b else first_true bs)"

text \<open>
  The confidence as step 7 of the specification words it: start at 0.60, add 0.15
  for more than six words, add 0.15 for any device warning, raise to at least 0.80
  when the urgency is high, clamp to at most 0.95.
\<close>

definition spec_confidence :: "nat \<Rightarrow> bool \<Rightarrow> bool \<Rightarrow> rat" where
  "spec_confidence word_count any_warning high =
     (let c = 0.60 + (if word_count > 6 then 0.15 else 0) + (if any_warning then 0.15 else 0);
          raised = (if high \<and> c < 0.80 then 0.80 else c)
      in if raised > 0.95 then 0.95 else raised)"

text \<open>\<open>round(confidence*100)\<close>, a whole percentage.\<close>

definition spec_percent :: "rat \<Rightarrow> nat" where
  "spec_percent c = nat (round (c * 100))"

text \<open>The three urgency levels in their order.\<close>

definition urgency_rank :: "string \<Rightarrow> nat" where
  "urgency_rank u = (if u = ''high'' then 2 else if u = ''moderate'' then 1 else 0)"

subsection \<open>Sessions and the browser's storage\<close>

text \<open>
  The payload of line 151, the session of lines 154-158. The source's field names
  \<^verbatim>\<open>text\<close>, \<^verbatim>\<open>device\<close>, \<^verbatim>\<open>id\<close>, \<^verbatim>\<open>input\<close>, \<^verbatim>\<open>result\<close> carry a prefix here.
\<close>

record payload =
  input_text :: string
  input_device :: device

record session =
  session_id :: string
  session_input :: payload
  session_result :: triage_result

text \<open>
  What localStorage holds under the key \<^verbatim>\<open>medai_sessions\<close>: \<open>None\<close> when the key
  is absent; \<open>Json xs\<close> for the text \<^verbatim>\<open>JSON.stringify(xs)\<close>, which \<^verbatim>\<open>JSON.parse\<close>
  reads back as \<open>xs\<close> (every value in a session is a string, a finite number,
  \<^verbatim>\<open>null\<close>, an array or an object of these); \<open>Unparsable\<close> for a text that
  \<^verbatim>\<open>JSON.parse\<close> rejects and for the empty text. A text that parses to something
  other than a list of sessions is not modelled.
\<close>

datatype stored = Json "session list" | Unparsable

text \<open>The state of the component the claims are about, and the storage beside it.\<close>

record app =
  sessions :: "session list"
  storage :: "stored option"

text \<open>Lines 28-35: the initial sessions.\<close>

definition load_sessions :: "stored option \<Rightarrow> session list" where
  "load_sessions raw =
     (case raw of None \<Rightarrow> [] | Some Unparsable \<Rightarrow> [] | Some (Json xs) \<Rightarrow> xs)"

text \<open>
  Lines 39-41: the effect with the dependency list \<^verbatim>\<open>[sessions]\<close>. React runs it
  after the first render and after every render in which \<^verbatim>\<open>sessions\<close> is another
  array than before. Every handler below passes a new array to \<^verbatim>\<open>setSessions\<close>
  (a spread and \<^verbatim>\<open>slice\<close>, \<^verbatim>\<open>filter\<close>, the literal \<^verbatim>\<open>[]\<close>), so the effect runs
  after each of them.
\<close>

definition persist_effect :: "app \<Rightarrow> app" where
  "persist_effect st = st\<lparr>storage := Some (Json (sessions st))\<rparr>"

text \<open>Loading the page: the lazy initialiser, then the effect of the first render.\<close>

definition mount :: "stored option \<Rightarrow> app" where
  "mount raw = persist_effect \<lparr> sessions = load_sessions raw, storage = raw \<rparr>"

text \<open>
  Lines 151-158. \<open>now_ms\<close> is \<^verbatim>\<open>Date.now()\<close>, \<open>now_iso\<close> the time
  \<^verbatim>\<open>triageEngine\<close> reads; \<^verbatim>\<open>inputText || transcript\<close> is the transcript when the
  input text is empty.
\<close>

definition new_session :: "nat \<Rightarrow> string \<Rightarrow> string \<Rightarrow> string \<Rightarrow> device \<Rightarrow> session" where
  "new_session now_ms now_iso inputText transcript deviceData =
     (let payload = \<lparr> input_text = (if inputText \<noteq> [] then inputText else transcript),
                       input_device = deviceData \<rparr>;
          result = triageEngine now_iso (Some (input_text payload)) (Some (input_device payload))
      in \<lparr> session_id = ''s_'' @ digits now_ms,
           session_input = payload,
           session_result = result \<rparr>)"

text \<open>Line 159: \<^verbatim>\<open>setSessions(prev => [session, ...prev].slice(0, 50))\<close>.\<close>

definition handleTriage_click :: "nat \<Rightarrow> string \<Rightarrow> string \<Rightarrow> string \<Rightarrow> device \<Rightarrow> app \<Rightarrow> app" where
  "handleTriage_click now_ms now_iso inputText transcript deviceData st =
     st\<lparr>sessions :=
          take 50 (new_session now_ms now_iso inputText transcript deviceData # sessions st)\<rparr>"

definition handleTriage :: "nat \<Rightarrow> string \<Rightarrow> string \<Rightarrow> string \<Rightarrow> device \<Rightarrow> app \<Rightarrow> app" where
  "handleTriage now_ms now_iso inputText transcript deviceData st =
     persist_effect (handleTriage_click now_ms now_iso inputText transcript deviceData st)"

text \<open>Line 182: \<^verbatim>\<open>setSessions(prev => prev.filter(s => s.id !== id))\<close>.\<close>

definition deleteSession_click :: "string \<Rightarrow> app \<Rightarrow> app" where
  "deleteSession_click i st = st\<lparr>sessions := filter (\<lambda>s. session_id s \<noteq> i) (sessions st)\<rparr>"

definition deleteSession :: "string \<Rightarrow> app \<Rightarrow> app" where
  "deleteSession i st = persist_effect (deleteSession_click i st)"

text \<open>
  Line 254, the Clear Sessions button:
  \<^verbatim>\<open>setSessions([]); localStorage.removeItem('medai_sessions');\<close>
  The handler removes the key; the render that follows has a new \<^verbatim>\<open>sessions\<close>
  array, so the effect runs after it.
\<close>

definition clear_click :: "app \<Rightarrow> app" where
  "clear_click st = st\<lparr>sessions := [], storage := None\<rparr>"

definition clearSessions :: "app \<Rightarrow> app" where
  "clearSessions st = persist_effect (clear_click st)"

text \<open>What the user can do to the store, and a sequence of such actions.\<close>

datatype event =
    Triage nat string string string device
  | Delete string
  | Clear
  | Reload

fun step :: "event \<Rightarrow> app \<Rightarrow> app" where
  "step (Triage now_ms now_iso inputText transcript deviceData) st =
     handleTriage now_ms now_iso inputText transcript deviceData st"
| "step (Delete i) st = deleteSession i st"
| "step Clear st = clearSessions st"
| "step Reload st = mount (storage st)"

fun run :: "event list \<Rightarrow> app \<Rightarrow> app" where
  "run [] st = st"
| "run (e # es) st = run es (step e st)"

text \<open>The clock readings of the triage runs in a sequence of actions.\<close>

fun triage_times :: "event list \<Rightarrow> nat list" where
  "triage_times [] = []"
| "triage_times (Triage now_ms now_iso inputText transcript deviceData # es) =
     now_ms # triage_times es"
| "triage_times (e # es) = triage_times es"

text \<open>
  The arguments of one triage run (the two clock readings, the input text, the
  transcript, the device data), the action and the session they stand for.
\<close>

type_synonym triage_args = "nat \<times> string \<times> string \<times> string \<times> device"

definition triage_event :: "triage_args \<Rightarrow> event" where
  "triage_event a =
     (case a of (now_ms, now_iso, inputText, transcript, deviceData) \<Rightarrow>
        Triage now_ms now_iso inputText transcript deviceData)"

definition session_from :: "triage_args \<Rightarrow> session" where
  "session_from a =
     (case a of (now_ms, now_iso, inputText, transcript, deviceData) \<Rightarrow>
        new_session now_ms now_iso inputText transcript deviceData)"

section \<open>Properties of the triage engine\<close>

subsection \<open>The device warnings under the two tests of lines 104 and 125\<close>

lemma serious_low: "regex_test_i [''oxygen'', ''heart'', ''breath''] low_oxygen_warning"
  by code_simp

lemma serious_fever: "\<not> regex_test_i [''oxygen'', ''heart'', ''breath''] fever_warning"
  by code_simp

lemma serious_heart: "regex_test_i [''oxygen'', ''heart'', ''breath''] heart_rate_warning"
  by code_simp

lemma force_low: "regex_test_i [''Low oxygen'', ''Abnormal heart rate''] low_oxygen_warning"
  by code_simp

lemma force_fever: "\<not> regex_test_i [''Low oxygen'', ''Abnormal heart rate''] fever_warning"
  by code_simp

lemma force_heart: "regex_test_i [''Low oxygen'', ''Abnormal heart rate''] heart_rate_warning"
  by code_simp

lemmas warning_tests = serious_low serious_fever serious_heart force_low force_fever force_heart

lemma serious_iff_force:
  "list_ex (regex_test_i [''oxygen'', ''heart'', ''breath'']) (devWarnings_of dev)
   = list_ex (regex_test_i [''Low oxygen'', ''Abnormal heart rate'']) (devWarnings_of dev)"
  by (simp add: devWarnings_of_def warning_tests)

lemma force_iff:
  "list_ex (regex_test_i [''Low oxygen'', ''Abnormal heart rate'']) (devWarnings_of dev)
   = (truthy_and (spo2 dev) (\<lambda>x. x < 92) \<or> truthy_and (hr dev) (\<lambda>x. x < 50 \<or> x > 120))"
  by (simp add: devWarnings_of_def warning_tests)

subsection \<open>The fields of the result\<close>

lemma basic_triage_urgency: "fst (basic_triage fl ws) \<in> {''low'', ''moderate'', ''high''}"
  by (simp add: basic_triage_def)

lemma incorporate_urgency:
  "fst (incorporate_device ws ur) = fst ur \<or> fst (incorporate_device ws ur) = ''high''"
  by (simp add: incorporate_device_def)

lemma urgency_triageEngine:
  "urgency (triageEngine now txt dev) =
     fst (incorporate_device (devWarnings_of (device_or_empty dev))
            (basic_triage (flags_of (normalize_text txt))
               (devWarnings_of (device_or_empty dev))))"
  by (simp add: triageEngine_def Let_def)

lemma confidence_triageEngine:
  "confidence (triageEngine now txt dev) =
     toFixed0 (confidence_of
                 (length (words_of (normalize_text txt)))
                 (devWarnings_of (device_or_empty dev))
                 (urgency (triageEngine now txt dev)) * 100) @ ''%''"
  by (simp add: triageEngine_def Let_def)

lemma possible_triageEngine:
  "possible (triageEngine now txt dev) =
     possible_of (flags_of (normalize_text txt))"
  by (simp add: triageEngine_def Let_def)

subsection \<open>The confidence takes four values\<close>

lemma confidence_of_values: "confidence_of k ws u \<in> {0.6, 0.75, 0.8, 0.9}"
  by (simp add: confidence_of_def Let_def max_def min_def)

lemma toFixed0_60: "toFixed0 (0.6 * 100) = ''60''"
  by code_simp

lemma toFixed0_75: "toFixed0 (0.75 * 100) = ''75''"
  by code_simp

lemma toFixed0_80: "toFixed0 (0.8 * 100) = ''80''"
  by code_simp

lemma toFixed0_90: "toFixed0 (0.9 * 100) = ''90''"
  by code_simp

lemma toFixed0_confidence:
  "toFixed0 (confidence_of k ws u * 100) \<in> {''60'', ''75'', ''80'', ''90''}"
proof -
  consider "confidence_of k ws u = 0.6" | "confidence_of k ws u = 0.75"
    | "confidence_of k ws u = 0.8" | "confidence_of k ws u = 0.9"
    using confidence_of_values [of k ws u] by blast
  then show ?thesis
  proof cases
    case 1
    then have "toFixed0 (confidence_of k ws u * 100) = ''60''"
      using toFixed0_60 by (simp only:)
    then show ?thesis by simp
  next
    case 2
    then have "toFixed0 (confidence_of k ws u * 100) = ''75''"
      using toFixed0_75 by (simp only:)
    then show ?thesis by simp
  next
    case 3
    then have "toFixed0 (confidence_of k ws u * 100) = ''80''"
      using toFixed0_80 by (simp only:)
    then show ?thesis by simp
  next
    case 4
    then have "toFixed0 (confidence_of k ws u * 100) = ''90''"
      using toFixed0_90 by (simp only:)
    then show ?thesis by simp
  qed
qed

text \<open>
  Claim C10. For every input the reported confidence is one of 60%, 75%, 80% and
  90%; the confidence the heuristic computes lies between 0.6 and 0.9 whatever the
  word count, the warnings and the urgency are, so the clamp at 0.95 never binds.
\<close>

theorem confidence_four_values:
  "confidence (triageEngine now txt dev) \<in> {''60%'', ''75%'', ''80%'', ''90%''}
   \<and> 0.6 \<le> confidence_of k ws u \<and> confidence_of k ws u \<le> 0.9
   \<and> min 0.95 (confidence_of k ws u) = confidence_of k ws u"
proof -
  let ?c = "confidence_of
              (length (words_of (normalize_text txt)))
              (devWarnings_of (device_or_empty dev)) (urgency (triageEngine now txt dev))"
  have "toFixed0 (?c * 100) \<in> {''60'', ''75'', ''80'', ''90''}"
    by (rule toFixed0_confidence)
  then have "confidence (triageEngine now txt dev) \<in> {''60%'', ''75%'', ''80%'', ''90%''}"
    unfolding confidence_triageEngine by auto
  moreover have "0.6 \<le> confidence_of k ws u \<and> confidence_of k ws u \<le> 0.9"
    using confidence_of_values [of k ws u] by auto
  ultimately show ?thesis by simp
qed

theorem confidence_four_values_witness:
  "confidence (triageEngine ''T'' (Some ''fever'') None) \<in> {''60%'', ''75%'', ''80%'', ''90%''}
   \<and> confidence (triageEngine ''T'' (Some ''fever'') None) = ''60%''"
proof -
  have "confidence (triageEngine ''T'' (Some ''fever'') None) = ''60%''"
    by code_simp
  then show ?thesis
    using confidence_four_values [of "''T''" "Some ''fever''" None 0 "[]" "''low''"] by simp
qed


subsection \<open>Substrings\<close>

lemma starts_with_iff: "starts_with p s \<longleftrightarrow> (\<exists>ss. s = p @ ss)"
  by (induction p s rule: starts_with.induct) auto

lemma contains_iff: "contains p s \<longleftrightarrow> (\<exists>ps ss. s = ps @ p @ ss)"
proof (induction s)
  case Nil
  then show ?case by (auto simp: starts_with_iff)
next
  case (Cons c cs)
  show ?case
  proof
    assume "contains p (c # cs)"
    then consider "starts_with p (c # cs)" | "contains p cs" by auto
    then show "\<exists>ps ss. c # cs = ps @ p @ ss"
    proof cases
      case 1
      then obtain ss where "c # cs = p @ ss" by (auto simp: starts_with_iff)
      then have "c # cs = [] @ p @ ss" by simp
      then show ?thesis by blast
    next
      case 2
      then obtain ps ss where "cs = ps @ p @ ss" using Cons.IH by blast
      then have "c # cs = (c # ps) @ p @ ss" by simp
      then show ?thesis by blast
    qed
  next
    assume "\<exists>ps ss. c # cs = ps @ p @ ss"
    then obtain ps ss where eq: "c # cs = ps @ p @ ss" by blast
    show "contains p (c # cs)"
    proof (cases ps)
      case Nil
      then have "starts_with p (c # cs)" using eq by (auto simp: starts_with_iff)
      then show ?thesis by simp
    next
      case (Cons a as)
      then have "cs = as @ p @ ss" using eq by simp
      then have "contains p cs" using Cons.IH by blast
      then show ?thesis by simp
    qed
  qed
qed

lemma contains_toLowerCase:
  assumes "contains p s"
  shows "contains (toLowerCase p) (toLowerCase s)"
proof -
  obtain ps ss where "s = ps @ p @ ss" using assms contains_iff by blast
  then have "toLowerCase s = toLowerCase ps @ toLowerCase p @ toLowerCase ss"
    by (simp add: toLowerCase_def)
  then show ?thesis using contains_iff by blast
qed

lemma chest_breath_lower:
  "p \<in> set (chest_patterns @ breath_patterns) \<Longrightarrow> toLowerCase p = p"
  by (auto simp: chest_patterns_def breath_patterns_def toLowerCase_def lower_char_def)

lemma regex_test_iff: "regex_test alts s \<longleftrightarrow> (\<exists>p \<in> set alts. contains p s)"
  by (simp add: regex_test_def list_ex_iff)

lemma flags_of_simps:
  "chest (flags_of t) = regex_test chest_patterns t"
  "breath (flags_of t) = regex_test breath_patterns t"
  by (simp_all add: flags_of_def)

subsection \<open>Chest and breathing keywords\<close>

lemma urgency_rank_incorporate:
  "urgency_rank (fst ur) \<le> urgency_rank (fst (incorporate_device ws ur))"
  using incorporate_urgency [of ws ur] by (auto simp: urgency_rank_def)

lemma serious_high:
  assumes "serious_condition fl ws"
  shows "fst (incorporate_device ws (basic_triage fl ws)) = ''high''"
proof -
  have "fst (basic_triage fl ws) = ''high''" using assms by (simp add: basic_triage_def)
  then show ?thesis using incorporate_urgency [of ws "basic_triage fl ws"] by auto
qed

lemma incorporate_forces_high:
  "list_ex (regex_test_i [''Low oxygen'', ''Abnormal heart rate'']) ws
   \<Longrightarrow> fst (incorporate_device ws ur) = ''high''"
  by (cases ws) (simp_all add: incorporate_device_def)

lemma incorporate_keeps:
  "\<not> list_ex (regex_test_i [''Low oxygen'', ''Abnormal heart rate'']) ws
   \<Longrightarrow> fst (incorporate_device ws ur) = fst ur"
  by (simp add: incorporate_device_def)

lemma incorporate_reading_high:
  "truthy_and (spo2 d) (\<lambda>x. x < 92) \<or> truthy_and (hr d) (\<lambda>x. x < 50 \<or> x > 120)
   \<Longrightarrow> fst (incorporate_device (devWarnings_of d) ur) = ''high''"
  using incorporate_forces_high [of "devWarnings_of d" ur] force_iff [of d] by simp


text \<open>
  Claim C6. When the text contains one of the chest or breathing patterns, as it
  stands or after lower-casing, the urgency of the result is high whatever the
  device reading is. The device step of lines 123-126, applied to any urgency,
  never lowers it: the rank does not decrease and high stays high. It upgrades: a
  low-oxygen or abnormal-heart-rate warning among the warnings makes the urgency
  high whatever it was, as a saturation below 92 or a heart rate outside 50-120
  does through the warnings it produces, and a low or a moderate urgency becomes
  high at such a warning. Without such a warning the urgency is left as it was.
\<close>

theorem chest_breath_always_high:
  "(p \<in> set (chest_patterns @ breath_patterns)
      \<and> (contains p s \<or> contains p (toLowerCase s))
      \<longrightarrow> urgency (triageEngine now (Some s) dev) = ''high'')
   \<and> urgency_rank (fst ur) \<le> urgency_rank (fst (incorporate_device ws ur))
   \<and> (fst ur = ''high'' \<longrightarrow> fst (incorporate_device ws ur) = ''high'')
   \<and> (list_ex (regex_test_i [''Low oxygen'', ''Abnormal heart rate'']) ws
        \<longrightarrow> fst (incorporate_device ws ur) = ''high'')
   \<and> (\<not> list_ex (regex_test_i [''Low oxygen'', ''Abnormal heart rate'']) ws
        \<longrightarrow> fst (incorporate_device ws ur) = fst ur)
   \<and> (truthy_and (spo2 d) (\<lambda>x. x < 92) \<or> truthy_and (hr d) (\<lambda>x. x < 50 \<or> x > 120)
        \<longrightarrow> fst (incorporate_device (devWarnings_of d) ur) = ''high'')
   \<and> fst (incorporate_device [low_oxygen_warning] (''low'', [reason_mild])) = ''high''
   \<and> fst (incorporate_device [heart_rate_warning] (''moderate'', [reason_dehydration])) = ''high''"
proof -
  have text_high: "urgency (triageEngine now (Some s) dev) = ''high''"
    if a: "p \<in> set (chest_patterns @ breath_patterns)"
      and b: "contains p s \<or> contains p (toLowerCase s)"
  proof -
    have low: "contains p (toLowerCase s)"
      using a b contains_toLowerCase [of p s] chest_breath_lower [of p] by auto
    have "regex_test chest_patterns (toLowerCase s) \<or> regex_test breath_patterns (toLowerCase s)"
      using a low by (auto simp: regex_test_iff)
    then have "serious_condition (flags_of (normalize_text (Some s)))
                 (devWarnings_of (device_or_empty dev))"
      by (auto simp: serious_condition_def flags_of_simps normalize_text_def)
    then show ?thesis
      unfolding urgency_triageEngine using serious_high by simp
  qed
  have stays: "fst ur = ''high'' \<longrightarrow> fst (incorporate_device ws ur) = ''high''"
    using incorporate_urgency [of ws ur] by auto
  have up_low: "fst (incorporate_device [low_oxygen_warning] (''low'', [reason_mild])) = ''high''"
    by (rule incorporate_forces_high) (simp add: force_low)
  have up_mod:
    "fst (incorporate_device [heart_rate_warning] (''moderate'', [reason_dehydration])) = ''high''"
    by (rule incorporate_forces_high) (simp add: force_heart)
  show ?thesis
    using text_high stays up_low up_mod urgency_rank_incorporate [of ur ws]
      incorporate_forces_high [of ws ur] incorporate_keeps [of ws ur]
      incorporate_reading_high [of d ur]
    by blast
qed

text \<open>
  The text "Chest hurts" with unremarkable readings; a saturation of 85 on a
  moderate urgency; a fever warning alone, which leaves moderate as it is.
\<close>

theorem chest_breath_always_high_witness:
  "urgency (triageEngine ''T'' (Some ''Chest hurts'')
      (Some \<lparr>spo2 = Some 99, temp = Some 36.6, hr = Some 70\<rparr>)) = ''high''
   \<and> fst (incorporate_device (devWarnings_of \<lparr>spo2 = Some 85, temp = None, hr = None\<rparr>)
        (''moderate'', [reason_fever_cough])) = ''high''
   \<and> fst (incorporate_device [fever_warning] (''moderate'', [reason_fever_cough])) = ''moderate''"
proof -
  have a: "''chest'' \<in> set (chest_patterns @ breath_patterns)"
    by (simp add: chest_patterns_def)
  have b: "contains ''chest'' ''Chest hurts'' \<or> contains ''chest'' (toLowerCase ''Chest hurts'')"
    by code_simp
  have c: "truthy_and (spo2 \<lparr>spo2 = Some 85, temp = None, hr = None\<rparr>) (\<lambda>x. x < 92)"
    by (simp add: truthy_and_def)
  have d: "\<not> list_ex (regex_test_i [''Low oxygen'', ''Abnormal heart rate'']) [fever_warning]"
    by (simp add: force_fever)
  have "urgency (triageEngine ''T'' (Some ''Chest hurts'')
      (Some \<lparr>spo2 = Some 99, temp = Some 36.6, hr = Some 70\<rparr>)) = ''high''"
    using chest_breath_always_high [of "''chest''" "''Chest hurts''" "''T''"
        "Some \<lparr>spo2 = Some 99, temp = Some 36.6, hr = Some 70\<rparr>"] a b
    by blast
  moreover have "fst (incorporate_device (devWarnings_of \<lparr>spo2 = Some 85, temp = None, hr = None\<rparr>)
        (''moderate'', [reason_fever_cough])) = ''high''"
    using chest_breath_always_high [of _ _ _ _ "(''moderate'', [reason_fever_cough])" _
        "\<lparr>spo2 = Some 85, temp = None, hr = None\<rparr>"] c
    by blast
  moreover have "fst (incorporate_device [fever_warning] (''moderate'', [reason_fever_cough])) = ''moderate''"
    using chest_breath_always_high [of _ _ _ _ "(''moderate'', [reason_fever_cough])" "[fever_warning]"] d
    by simp
  ultimately show ?thesis by blast
qed

subsection \<open>A reading of zero\<close>

text \<open>
  Claim C1, evaluated where it fails. A reading of oxygen saturation 0 is present
  and below 92, but line 98 tests \<^verbatim>\<open>dev.spo2 && dev.spo2 < 92\<close> and the number 0
  is falsy: the engine pushes no warning and, on an empty text, returns the
  urgency low with the mild-symptoms reason alone.
\<close>

theorem low_oxygen_zero_reading:
  "devWarnings_of \<lparr>spo2 = Some 0, temp = None, hr = None\<rparr> = []
   \<and> urgency (triageEngine ''T'' (Some []) (Some \<lparr>spo2 = Some 0, temp = None, hr = None\<rparr>)) = ''low''
   \<and> explanation (triageEngine ''T'' (Some []) (Some \<lparr>spo2 = Some 0, temp = None, hr = None\<rparr>))
       = ''Symptoms seem mild from the description.''"
  by code_simp

text \<open>Every other reading below 92 gives the warning and the urgency high.\<close>

lemma low_oxygen_nonzero_reading:
  assumes "spo2 d = Some x" and "x \<noteq> 0" and "x < 92"
  shows "low_oxygen_warning \<in> set (devWarnings_of d)
     \<and> urgency (triageEngine now txt (Some d)) = ''high''"
proof -
  have t: "truthy_and (spo2 d) (\<lambda>x. x < 92)" using assms by (simp add: truthy_and_def)
  then have w: "low_oxygen_warning \<in> set (devWarnings_of d)" by (simp add: devWarnings_of_def)
  have "list_ex (regex_test_i [''oxygen'', ''heart'', ''breath'']) (devWarnings_of d)"
    unfolding serious_iff_force force_iff using t by simp
  then have "serious_condition (flags_of (normalize_text txt)) (devWarnings_of d)"
    by (simp add: serious_condition_def)
  then have "urgency (triageEngine now txt (Some d)) = ''high''"
    unfolding urgency_triageEngine using serious_high by (simp add: device_or_empty_def)
  with w show ?thesis by simp
qed

subsection \<open>The order of the urgency branches\<close>

lemma snd_incorporate:
  "snd (incorporate_device ws ur) = snd ur @ map (\<lambda>w. ''Device reading: '' @ w @ ''.'') ws"
  by (simp add: incorporate_device_def)

lemma explanation_triageEngine:
  "explanation (triageEngine now txt dev) =
     join_space (snd (incorporate_device (devWarnings_of (device_or_empty dev))
            (basic_triage (flags_of (normalize_text txt))
               (devWarnings_of (device_or_empty dev)))))"
  by (simp add: triageEngine_def Let_def)

lemma not_serious_keeps:
  assumes "\<not> serious_condition fl (devWarnings_of d)"
  shows "fst (incorporate_device (devWarnings_of d) ur) = fst ur"
proof -
  have "\<not> list_ex (regex_test_i [''Low oxygen'', ''Abnormal heart rate'']) (devWarnings_of d)"
    using assms serious_iff_force [of d] by (simp add: serious_condition_def)
  then show ?thesis by (simp add: incorporate_device_def)
qed

lemma first_true_branches:
  "case first_true (spec_branches fl ws) of None \<Rightarrow> False
   | Some (b, c, u, r) \<Rightarrow> basic_triage fl ws = (u, [r]) \<and> b \<noteq> BrD"
  by (simp add: spec_branches_def basic_triage_def serious_condition_def)

text \<open>
  Claim C2. The if-else chain of lines 104-121 returns the urgency and the reason
  of the first branch, in the order (a)-(f), whose condition holds, and that
  branch is never (d). When the fever flag is set, the cough flag is not and the
  condition of branch (a) is false, the chain yields low with the fever-alone
  reason; for the engine as a whole the urgency of the result is then low and its
  explanation is that reason followed by the device lines.
\<close>

theorem urgency_first_match:
  "(case first_true (spec_branches fl ws) of None \<Rightarrow> False
    | Some (b, c, u, r) \<Rightarrow> basic_triage fl ws = (u, [r]) \<and> b \<noteq> BrD)
   \<and> (fever fl \<and> \<not> cough fl \<and> \<not> serious_condition fl ws
        \<longrightarrow> basic_triage fl ws = (''low'', [reason_fever_alone]))
   \<and> (fever (flags_of (normalize_text txt)) \<and> \<not> cough (flags_of (normalize_text txt))
        \<and> \<not> serious_condition (flags_of (normalize_text txt)) (devWarnings_of (device_or_empty dev))
        \<longrightarrow> urgency (triageEngine now txt dev) = ''low''
          \<and> explanation (triageEngine now txt dev)
              = join_space (reason_fever_alone
                  # map (\<lambda>w. ''Device reading: '' @ w @ ''.'') (devWarnings_of (device_or_empty dev))))"
proof -
  have a: "fever fl \<and> \<not> cough fl \<and> \<not> serious_condition fl ws
        \<longrightarrow> basic_triage fl ws = (''low'', [reason_fever_alone])" for fl ws
    by (simp add: basic_triage_def)
  have b: "fever (flags_of (normalize_text txt)) \<and> \<not> cough (flags_of (normalize_text txt))
        \<and> \<not> serious_condition (flags_of (normalize_text txt)) (devWarnings_of (device_or_empty dev))
        \<longrightarrow> urgency (triageEngine now txt dev) = ''low''
          \<and> explanation (triageEngine now txt dev)
              = join_space (reason_fever_alone
                  # map (\<lambda>w. ''Device reading: '' @ w @ ''.'') (devWarnings_of (device_or_empty dev)))"
    unfolding urgency_triageEngine explanation_triageEngine snd_incorporate
    using a not_serious_keeps by auto
  show ?thesis using first_true_branches a b by blast
qed

text \<open>The text "Fever and a rash" without a device: branch (c), not (d).\<close>

theorem urgency_first_match_witness:
  "urgency (triageEngine ''T'' (Some ''Fever and a rash'') None) = ''low''
   \<and> explanation (triageEngine ''T'' (Some ''Fever and a rash'') None) = reason_fever_alone
   \<and> basic_triage (flags_of ''fever and a rash'') [] = (''low'', [reason_fever_alone])"
proof -
  have f: "fever (flags_of (normalize_text (Some ''Fever and a rash'')))" by code_simp
  have c: "\<not> cough (flags_of (normalize_text (Some ''Fever and a rash'')))" by code_simp
  have s: "\<not> serious_condition (flags_of (normalize_text (Some ''Fever and a rash'')))
               (devWarnings_of (device_or_empty None))" by code_simp
  have n: "normalize_text (Some ''Fever and a rash'') = ''fever and a rash''" by code_simp
  have d: "devWarnings_of (device_or_empty None) = []" by code_simp
  show ?thesis
    using urgency_first_match [of "flags_of ''fever and a rash''" "[]" "Some ''Fever and a rash''" None "''T''"] f c s
    unfolding n d by simp
qed

subsection \<open>The confidence against the specification\<close>

lemma confidence_of_spec:
  "confidence_of k ws u = spec_confidence k (ws \<noteq> []) (u = ''high'')"
  by (simp add: confidence_of_def spec_confidence_def Let_def max_def min_def)

lemma confidence_of_nonneg: "0 \<le> confidence_of k ws u"
  using confidence_of_values [of k ws u] by auto

lemma toFixed0_percent: "0 \<le> c \<Longrightarrow> toFixed0 (c * 100) = digits (spec_percent c)"
  by (simp add: toFixed0_def spec_percent_def round_def)

text \<open>
  Claim C4. The confidence string of the result is the whole percentage
  \<open>round(confidence * 100)\<close>, followed by the percent sign, of the confidence that
  step 7 of the specification describes, computed from the number of words of the
  lower-cased text, from whether any device warning exists and from whether the
  urgency of the result is high.
\<close>

theorem confidence_as_specified:
  "confidence (triageEngine now txt dev) =
     digits (spec_percent (spec_confidence (length (words_of (normalize_text txt)))
                (devWarnings_of (device_or_empty dev) \<noteq> [])
                (urgency (triageEngine now txt dev) = ''high''))) @ ''%''"
  unfolding confidence_triageEngine
  using toFixed0_percent [OF confidence_of_nonneg] confidence_of_spec by simp

text \<open>Eight words and a fever warning: 0.6 + 0.15 + 0.15, printed as 90%.\<close>

theorem confidence_as_specified_witness:
  "confidence (triageEngine ''T'' (Some ''I have had a cough for two days'')
       (Some \<lparr>spo2 = Some 97, temp = Some 38.4, hr = Some 80\<rparr>)) = ''90%''"
proof -
  have k: "length (words_of (normalize_text (Some ''I have had a cough for two days''))) = 8"
    by code_simp
  have w: "devWarnings_of (device_or_empty (Some \<lparr>spo2 = Some 97, temp = Some 38.4, hr = Some 80\<rparr>)) = [fever_warning]"
    by code_simp
  have u: "urgency (triageEngine ''T'' (Some ''I have had a cough for two days'')
       (Some \<lparr>spo2 = Some 97, temp = Some 38.4, hr = Some 80\<rparr>)) = ''low''"
    by code_simp
  have d: "digits (spec_percent (spec_confidence 8 True False)) = ''90''"
    by code_simp
  show ?thesis
    using confidence_as_specified [of "''T''" "Some ''I have had a cough for two days''"
        "Some \<lparr>spo2 = Some 97, temp = Some 38.4, hr = Some 80\<rparr>"]
    unfolding k w u using d by simp
qed

subsection \<open>The ranges of the result\<close>

lemma digits_60: "digits 60 = ''60''"
  by code_simp

lemma digits_75: "digits 75 = ''75''"
  by code_simp

lemma digits_80: "digits 80 = ''80''"
  by code_simp

lemma digits_90: "digits 90 = ''90''"
  by code_simp


lemma possible_of_nonempty: "1 \<le> length (possible_of fl)"
  by (simp add: possible_of_def Let_def)

lemma possible_of_default:
  "\<not> (fever fl \<and> cough fl) \<Longrightarrow> \<not> (cough fl \<and> breath fl) \<Longrightarrow> \<not> rash fl \<Longrightarrow> \<not> vomit fl
   \<Longrightarrow> possible_of fl = [common_cold]"
  by (auto simp: possible_of_def Let_def)

text \<open>
  Claim C5. For every text and every optional device reading the urgency is low,
  moderate or high, the confidence is the decimal numeral of a natural number of
  at most 95 followed by the percent sign, the list of possible conditions has at
  least one entry, and when none of the four condition checks matches the list is
  the common-cold entry alone.
\<close>

theorem result_ranges:
  "urgency (triageEngine now txt dev) \<in> {''low'', ''moderate'', ''high''}
   \<and> (\<exists>n. n \<le> 95 \<and> confidence (triageEngine now txt dev) = digits n @ ''%'')
   \<and> 1 \<le> length (possible (triageEngine now txt dev))
   \<and> (\<not> (fever (flags_of (normalize_text txt)) \<and> cough (flags_of (normalize_text txt)))
       \<and> \<not> (cough (flags_of (normalize_text txt)) \<and> breath (flags_of (normalize_text txt)))
       \<and> \<not> rash (flags_of (normalize_text txt)) \<and> \<not> vomit (flags_of (normalize_text txt))
       \<longrightarrow> possible (triageEngine now txt dev) = [common_cold])"
proof -
  let ?r = "triageEngine now txt dev"
  have u: "urgency ?r \<in> {''low'', ''moderate'', ''high''}"
    unfolding urgency_triageEngine
    using basic_triage_urgency incorporate_urgency
    by (metis insert_iff)
  let ?c = "confidence_of (length (words_of (normalize_text txt)))
              (devWarnings_of (device_or_empty dev)) (urgency ?r)"
  have "toFixed0 (?c * 100) \<in> {digits 60, digits 75, digits 80, digits 90}"
    using toFixed0_confidence [of _ _ "urgency ?r"]
    unfolding digits_60 digits_75 digits_80 digits_90 by blast
  then consider "toFixed0 (?c * 100) = digits 60" | "toFixed0 (?c * 100) = digits 75"
    | "toFixed0 (?c * 100) = digits 80" | "toFixed0 (?c * 100) = digits 90"
    by blast
  then have "\<exists>n. n \<le> 95 \<and> toFixed0 (?c * 100) = digits n"
  proof cases
    case 1
    then show ?thesis by (intro exI [of _ 60]) simp
  next
    case 2
    then show ?thesis by (intro exI [of _ 75]) simp
  next
    case 3
    then show ?thesis by (intro exI [of _ 80]) simp
  next
    case 4
    then show ?thesis by (intro exI [of _ 90]) simp
  qed
  then have c: "\<exists>n. n \<le> 95 \<and> confidence ?r = digits n @ ''%''"
    unfolding confidence_triageEngine by simp
  have p: "1 \<le> length (possible ?r)"
    unfolding possible_triageEngine by (rule possible_of_nonempty)
  show ?thesis using u c p possible_of_default unfolding possible_triageEngine by blast
qed

text \<open>The text "sore throat" matches no condition check.\<close>

theorem result_ranges_witness:
  "possible (triageEngine ''T'' (Some ''sore throat'') None) = [common_cold]
   \<and> urgency (triageEngine ''T'' (Some ''sore throat'') None) \<in> {''low'', ''moderate'', ''high''}"
proof -
  have f: "\<not> (fever (flags_of (normalize_text (Some ''sore throat''))) \<and> cough (flags_of (normalize_text (Some ''sore throat''))))
       \<and> \<not> (cough (flags_of (normalize_text (Some ''sore throat''))) \<and> breath (flags_of (normalize_text (Some ''sore throat''))))
       \<and> \<not> rash (flags_of (normalize_text (Some ''sore throat''))) \<and> \<not> vomit (flags_of (normalize_text (Some ''sore throat'')))"
    by code_simp
  show ?thesis using result_ranges [of "''T''" "Some ''sore throat''" None] f by blast
qed


section \<open>Properties of the session store\<close>

subsection \<open>What each action does to the sessions and to the storage\<close>

lemma sessions_persist: "sessions (persist_effect st) = sessions st"
  by (simp add: persist_effect_def)

lemma storage_persist: "storage (persist_effect st) = Some (Json (sessions st))"
  by (simp add: persist_effect_def)

lemma sessions_mount: "sessions (mount raw) = load_sessions raw"
  by (simp add: mount_def persist_effect_def)

lemma storage_mount: "storage (mount raw) = Some (Json (sessions (mount raw)))"
  by (simp add: mount_def persist_effect_def)

lemma sessions_handleTriage:
  "sessions (handleTriage ms ts it tr d st) = take 50 (new_session ms ts it tr d # sessions st)"
  by (simp add: handleTriage_def handleTriage_click_def persist_effect_def)

lemma sessions_deleteSession:
  "sessions (deleteSession i st) = filter (\<lambda>s. session_id s \<noteq> i) (sessions st)"
  by (simp add: deleteSession_def deleteSession_click_def persist_effect_def)

lemma sessions_clearSessions: "sessions (clearSessions st) = []"
  by (simp add: clearSessions_def clear_click_def persist_effect_def)

lemma storage_step: "storage (step e st) = Some (Json (sessions (step e st)))"
  by (cases e)
     (simp_all add: handleTriage_def deleteSession_def clearSessions_def mount_def persist_effect_def)

lemma sessions_reload:
  "storage st = Some (Json (sessions st)) \<Longrightarrow> sessions (step Reload st) = sessions st"
  by (simp add: sessions_mount load_sessions_def)

subsection \<open>The cap of 50\<close>

lemma length_step:
  assumes "storage st = Some (Json (sessions st))" and "length (sessions st) \<le> 50"
  shows "length (sessions (step e st)) \<le> 50"
proof (cases e)
  case (Triage ms ts it tr d)
  then show ?thesis by (simp add: sessions_handleTriage)
next
  case (Delete i)
  have "length (filter (\<lambda>s. session_id s \<noteq> i) (sessions st)) \<le> 50"
    using order_trans [OF length_filter_le assms(2)] .
  then show ?thesis using Delete by (simp add: sessions_deleteSession)
next
  case Clear
  then show ?thesis by (simp add: sessions_clearSessions)
next
  case Reload
  then show ?thesis using assms sessions_reload by simp
qed

lemma length_run:
  "storage st = Some (Json (sessions st)) \<Longrightarrow> length (sessions st) \<le> 50
   \<Longrightarrow> length (sessions (run evs st)) \<le> 50"
proof (induction evs arbitrary: st)
  case Nil
  then show ?case by simp
next
  case (Cons e es)
  have "length (sessions (step e st)) \<le> 50" using Cons.prems by (rule length_step)
  then show ?case using Cons.IH [OF storage_step] by simp
qed

lemma mount_None: "sessions (mount None) = [] \<and> storage (mount None) = Some (Json [])"
  by (simp add: mount_def persist_effect_def load_sessions_def)

lemma take_append_take: "take n (xs @ take n ys) = take n (xs @ ys)"
  by (simp add: min_def)

lemma step_triage_event: "sessions (step (triage_event a) st) = take 50 (session_from a # sessions st)"
  by (cases a) (simp add: triage_event_def session_from_def sessions_handleTriage)

lemma sessions_run_triage:
  "length (sessions st) \<le> 50 \<Longrightarrow>
   sessions (run (map triage_event as) st) = take 50 (rev (map session_from as) @ sessions st)"
proof (induction as arbitrary: st)
  case Nil
  then show ?case by simp
next
  case (Cons a as)
  have "length (sessions (step (triage_event a) st)) \<le> 50"
    by (simp add: step_triage_event)
  then have "sessions (run (map triage_event (a # as)) st)
        = take 50 (rev (map session_from as) @ take 50 (session_from a # sessions st))"
    using Cons.IH [of "step (triage_event a) st"] by (simp add: step_triage_event)
  also have "\<dots> = take 50 (rev (map session_from as) @ session_from a # sessions st)"
    by (rule take_append_take)
  finally show ?case by simp
qed

lemma take_50_rev_51:
  assumes "length xs = 51"
  shows "take 50 (rev xs) = rev (tl xs)"
proof -
  have "take 50 (rev xs) = rev (drop (length xs - 50) xs)" by (simp add: take_rev)
  also have "\<dots> = rev (drop 1 xs)" using assms by simp
  finally show ?thesis by (simp add: drop_Suc)
qed

text \<open>
  Claim C3. Whatever the user does after a first launch (triage runs, deletions,
  clearing, reloading the page), the store holds at most 50 sessions, and so it
  does after a launch from any persisted list of at most 50. A triage run puts the
  new session in front and keeps the first 50. After any sequence of triage runs
  from a first launch the store is the 50 most recent of their sessions, newest
  first; after 51 of them it has exactly 50 entries, all but the first one.
\<close>

theorem store_capped:
  "length (sessions (run evs (mount None))) \<le> 50
   \<and> (length (load_sessions raw) \<le> 50 \<longrightarrow> length (sessions (run evs (mount raw))) \<le> 50)
   \<and> sessions (handleTriage ms ts it tr d st) = take 50 (new_session ms ts it tr d # sessions st)
   \<and> sessions (run (map triage_event as) (mount None)) = take 50 (rev (map session_from as))
   \<and> (length as = 51 \<longrightarrow>
        length (sessions (run (map triage_event as) (mount None))) = 50
        \<and> sessions (run (map triage_event as) (mount None)) = rev (tl (map session_from as)))"
proof -
  have a: "length (sessions (run evs (mount None))) \<le> 50"
    by (rule length_run) (simp_all add: mount_None)
  have a': "length (load_sessions raw) \<le> 50 \<longrightarrow> length (sessions (run evs (mount raw))) \<le> 50"
    using length_run [of "mount raw" evs] by (simp add: sessions_mount storage_mount)
  have b: "sessions (run (map triage_event as) (mount None)) = take 50 (rev (map session_from as))"
    using sessions_run_triage [of "mount None" as] by (simp add: mount_None)
  have c: "length as = 51 \<longrightarrow>
        length (sessions (run (map triage_event as) (mount None))) = 50
        \<and> sessions (run (map triage_event as) (mount None)) = rev (tl (map session_from as))"
    unfolding b using take_50_rev_51 [of "map session_from as"] by simp
  show ?thesis using a a' b c sessions_handleTriage by blast
qed

text \<open>Fifty-one triage runs after a first launch.\<close>

theorem store_capped_witness:
  "length (sessions (run (map triage_event (replicate 51 (1, ''T'', ''fever'', [], no_device)))
      (mount None))) = 50"
proof -
  have "length (replicate 51 (1::nat, ''T'', ''fever'', [] :: string, no_device)) = 51" by simp
  then show ?thesis
    using store_capped [of "[]" None 1 "''T''" "''fever''" "[]" no_device "mount None"
        "replicate 51 (1, ''T'', ''fever'', [], no_device)"]
    by blast
qed

subsection \<open>Session ids\<close>

lemma digits_nonempty: "digits n \<noteq> []"
  by (subst digits.simps) simp

lemma digit_char_inj: "a < 10 \<Longrightarrow> b < 10 \<Longrightarrow> digit_char a = digit_char b \<Longrightarrow> a = b"
  by (simp add: digit_char_def char_of_eq_iff take_bit_eq_mod)

lemma digits_inj: "digits m = digits n \<Longrightarrow> m = n"
proof (induction m arbitrary: n rule: digits.induct)
  case (1 m)
  show ?case
  proof (cases "m < 10")
    case True
    show ?thesis
    proof (cases "n < 10")
      case True
      with \<open>m < 10\<close> "1.prems" show ?thesis
        by (simp add: digits.simps [of m] digits.simps [of n] digit_char_inj)
    next
      case False
      with \<open>m < 10\<close> "1.prems" digits_nonempty [of "n div 10"] show ?thesis
        by (simp add: digits.simps [of m] digits.simps [of n])
    qed
  next
    case False
    show ?thesis
    proof (cases "n < 10")
      case True
      with \<open>\<not> m < 10\<close> "1.prems" digits_nonempty [of "m div 10"] show ?thesis
        by (simp add: digits.simps [of m] digits.simps [of n])
    next
      case nge: False
      from False nge "1.prems"
      have eq: "digits (m div 10) = digits (n div 10)"
        and dc: "digit_char (m mod 10) = digit_char (n mod 10)"
        by (simp_all add: digits.simps [of m] digits.simps [of n])
      have "m div 10 = n div 10" using "1.IH" [OF False eq] .
      moreover have "m mod 10 = n mod 10" using dc by (simp add: digit_char_inj)
      ultimately show ?thesis by (metis div_mult_mod_eq)
    qed
  qed
qed


lemma session_id_new: "session_id (new_session ms ts it tr d) = ''s_'' @ digits ms"
  by (simp add: new_session_def Let_def)

lemma distinct_step:
  assumes sync: "storage st = Some (Json (sessions st))"
    and dist: "distinct (map session_id (sessions st))"
    and ids: "set (map session_id (sessions st)) \<subseteq> (\<lambda>n. ''s_'' @ digits n) ` T"
    and fresh: "set (triage_times [e]) \<inter> T = {}"
  shows "distinct (map session_id (sessions (step e st)))
     \<and> set (map session_id (sessions (step e st)))
         \<subseteq> (\<lambda>n. ''s_'' @ digits n) ` (set (triage_times [e]) \<union> T)"
proof (cases e)
  case (Triage ms ts it tr d)
  let ?s = "new_session ms ts it tr d"
  have "ms \<notin> T" using fresh Triage by simp
  then have "session_id ?s \<notin> (\<lambda>n. ''s_'' @ digits n) ` T"
    using digits_inj by (auto simp: session_id_new)
  then have "session_id ?s \<notin> set (map session_id (sessions st))" using ids by blast
  then have d: "distinct (map session_id (?s # sessions st))" using dist by simp
  have "distinct (take 50 (map session_id (?s # sessions st)))"
    using d by (rule distinct_take)
  then have a: "distinct (map session_id (take 50 (?s # sessions st)))"
    by (simp only: take_map)
  have "set (take 50 (?s # sessions st)) \<subseteq> set (?s # sessions st)"
    by (rule set_take_subset)
  then have "set (map session_id (take 50 (?s # sessions st)))
      \<subseteq> insert (session_id ?s) (set (map session_id (sessions st)))"
    by auto
  then have b: "set (map session_id (take 50 (?s # sessions st)))
      \<subseteq> (\<lambda>n. ''s_'' @ digits n) ` (insert ms T)"
    using ids by (auto simp: session_id_new)
  show ?thesis using a b Triage by (simp add: sessions_handleTriage)
next
  case (Delete i)
  have "distinct (map session_id (filter (\<lambda>s. session_id s \<noteq> i) (sessions st)))"
    using dist by (rule distinct_map_filter)
  moreover have "set (map session_id (filter (\<lambda>s. session_id s \<noteq> i) (sessions st)))
      \<subseteq> (\<lambda>n. ''s_'' @ digits n) ` T"
    using ids by auto
  ultimately show ?thesis using Delete by (simp add: sessions_deleteSession)
next
  case Clear
  then show ?thesis by (simp add: sessions_clearSessions)
next
  case Reload
  then show ?thesis using sync dist ids sessions_reload by simp
qed

lemma distinct_run:
  assumes "storage st = Some (Json (sessions st))"
    and "distinct (map session_id (sessions st))"
    and "set (map session_id (sessions st)) \<subseteq> (\<lambda>n. ''s_'' @ digits n) ` T"
    and "distinct (triage_times evs)"
    and "set (triage_times evs) \<inter> T = {}"
  shows "distinct (map session_id (sessions (run evs st)))"
  using assms
proof (induction evs arbitrary: st T)
  case Nil
  then show ?case by simp
next
  case (Cons e es)
  have split: "triage_times (e # es) = triage_times [e] @ triage_times es"
    by (cases e) simp_all
  have fresh: "set (triage_times [e]) \<inter> T = {}"
    using Cons.prems(5) unfolding split by auto
  have st: "distinct (map session_id (sessions (step e st)))
     \<and> set (map session_id (sessions (step e st)))
         \<subseteq> (\<lambda>n. ''s_'' @ digits n) ` (set (triage_times [e]) \<union> T)"
    using Cons.prems(1,2,3) fresh by (rule distinct_step)
  have d: "distinct (triage_times es)"
    using Cons.prems(4) unfolding split by simp
  have f: "set (triage_times es) \<inter> (set (triage_times [e]) \<union> T) = {}"
    using Cons.prems(4,5) unfolding split by auto
  have "distinct (map session_id (sessions (run es (step e st))))"
    using Cons.IH [OF storage_step _ _ d f] st by blast
  then show ?case by simp
qed

text \<open>
  Claim C8, amended. A triage run gives the new session the id \<open>s_\<close> followed by
  the decimal digits of the clock reading \<^verbatim>\<open>Date.now()\<close>. In every store reached
  from a first launch by triage runs at pairwise different clock readings,
  deletions, clearing and reloading, the ids of the stored sessions are pairwise
  distinct.
\<close>

theorem ids_distinct_for_distinct_clock:
  "session_id (new_session ms ts it tr d) = ''s_'' @ digits ms
   \<and> (distinct (triage_times evs)
        \<longrightarrow> distinct (map session_id (sessions (run evs (mount None)))))"
proof -
  have "distinct (map session_id (sessions (run evs (mount None))))"
    if "distinct (triage_times evs)"
    using distinct_run [of "mount None" "{}" evs] that by (simp add: mount_None)
  then show ?thesis using session_id_new by blast
qed

text \<open>Two triage runs at the readings 1 and 2, a deletion and a reload.\<close>

theorem ids_distinct_for_distinct_clock_witness:
  "distinct (map session_id (sessions (run
      [Triage 1 ''T'' ''fever'' [] no_device, Triage 2 ''T'' ''cough'' [] no_device,
       Delete ''s_1'', Reload] (mount None))))"
proof -
  have "distinct (triage_times
      [Triage 1 ''T'' ''fever'' [] no_device, Triage 2 ''T'' ''cough'' [] no_device,
       Delete ''s_1'', Reload])"
    by simp
  then show ?thesis
    using ids_distinct_for_distinct_clock [of 1 "''T''" "''fever''" "[]" no_device
      "[Triage 1 ''T'' ''fever'' [] no_device, Triage 2 ''T'' ''cough'' [] no_device,
        Delete ''s_1'', Reload]"]
    by blast
qed

text \<open>
  Claim C8 as stated fails: two triage runs that read the same clock value store
  two sessions with the same id.
\<close>

theorem same_clock_same_id:
  "\<not> distinct (map session_id (sessions (run
      [Triage 1 ''T'' ''fever'' [] no_device, Triage 1 ''T'' ''cough'' [] no_device]
      (mount None))))"
  by (simp add: sessions_handleTriage mount_None session_id_new)

subsection \<open>Deleting and clearing\<close>

text \<open>
  Claim C9. Deleting by id keeps, in their order, exactly the sessions with another
  id, so no session with that id remains. When no session has the id the sessions
  are unchanged, and so is the whole state when the storage holds the current
  sessions, as it does after every action. Deleting the same id a second time
  changes nothing.
\<close>

theorem delete_idempotent:
  "sessions (deleteSession i st) = filter (\<lambda>s. session_id s \<noteq> i) (sessions st)
   \<and> i \<notin> set (map session_id (sessions (deleteSession i st)))
   \<and> (i \<notin> set (map session_id (sessions st))
        \<longrightarrow> sessions (deleteSession i st) = sessions st
          \<and> (storage st = Some (Json (sessions st)) \<longrightarrow> deleteSession i st = st))
   \<and> deleteSession i (deleteSession i st) = deleteSession i st"
proof -
  have a: "i \<notin> set (map session_id (sessions (deleteSession i st)))"
    by (auto simp: sessions_deleteSession)
  have b: "sessions (deleteSession i st) = sessions st"
    if "i \<notin> set (map session_id (sessions st))"
  proof -
    have "\<forall>s \<in> set (sessions st). session_id s \<noteq> i" using that by auto
    then show ?thesis by (simp add: sessions_deleteSession)
  qed
  have c: "deleteSession i st = st"
    if "i \<notin> set (map session_id (sessions st))" and "storage st = Some (Json (sessions st))"
  proof -
    have "filter (\<lambda>s. session_id s \<noteq> i) (sessions st) = sessions st"
      using b [OF that(1)] by (simp add: sessions_deleteSession)
    then show ?thesis using that(2)
      by (simp add: deleteSession_def deleteSession_click_def persist_effect_def)
  qed
  have d: "deleteSession i (deleteSession i st) = deleteSession i st"
    by (simp add: deleteSession_def deleteSession_click_def persist_effect_def)
  show ?thesis using a b c d sessions_deleteSession by blast
qed

text \<open>Deleting the absent id \<open>s_2\<close> from a store that holds the session \<open>s_1\<close>.\<close>

theorem delete_idempotent_witness:
  "deleteSession ''s_2''
     \<lparr> sessions = [new_session 1 ''T'' ''fever'' [] no_device],
       storage = Some (Json [new_session 1 ''T'' ''fever'' [] no_device]) \<rparr>
   = \<lparr> sessions = [new_session 1 ''T'' ''fever'' [] no_device],
       storage = Some (Json [new_session 1 ''T'' ''fever'' [] no_device]) \<rparr>"
proof -
  let ?st = "\<lparr> sessions = [new_session 1 ''T'' ''fever'' [] no_device],
       storage = Some (Json [new_session 1 ''T'' ''fever'' [] no_device]) \<rparr>"
  have "digits 1 = ''1''" by code_simp
  then have a: "''s_2'' \<notin> set (map session_id (sessions ?st))"
    by (simp add: session_id_new)
  have b: "storage ?st = Some (Json (sessions ?st))" by simp
  show ?thesis using delete_idempotent [of "''s_2''" ?st] a b by blast
qed

text \<open>
  Claim C7, evaluated on the code. Clearing empties the sessions and the handler
  removes the storage key, but the effect that follows the re-render writes the
  empty list under the key again: after clearing, the key is present and holds
  \<^verbatim>\<open>[]\<close>. A load from that storage yields the empty store.
\<close>

theorem clear_leaves_empty_list_stored:
  "sessions (clearSessions st) = []
   \<and> storage (clear_click st) = None
   \<and> storage (clearSessions st) = Some (Json [])
   \<and> storage (clearSessions st) \<noteq> None
   \<and> load_sessions (storage (clearSessions st)) = []
   \<and> sessions (mount (storage (clearSessions st))) = []"
  by (simp add: clearSessions_def clear_click_def persist_effect_def mount_def load_sessions_def)

end
